theory Spec2Isabelle
  imports Main
begin

section \<open>Strings and the library functions used by acl.go\<close>

text \<open>
  A Go string is modelled by the sequence of its Unicode code points. This is the view
  the code takes of it: \<^verbatim>\<open>for _, ch := range s\<close> iterates over code points,
  \<^verbatim>\<open>unicode.IsSpace\<close> and \<^verbatim>\<open>strings.TrimSpace\<close> classify code points, and the
  separators and cut sets (\<^verbatim>\<open>,\<close> \<^verbatim>\<open>^\<close> \<^verbatim>\<open>(\<close> \<^verbatim>\<open>$\<close> \<^verbatim>\<open>)\<close>) are ASCII, so that splitting
  and trimming bytes and splitting and trimming code points agree on valid UTF-8.
  \<open>str\<close> turns a literal into such a sequence.
\<close>

type_synonym rune = nat
type_synonym gostring = "rune list"

definition str :: "string \<Rightarrow> gostring" where
  "str s = map of_char s"

text \<open>
  \<^verbatim>\<open>unicode.IsSpace\<close>: in Latin-1 the characters tab, newline, vertical tab, form feed,
  carriage return, space, U+0085 and U+00A0; beyond Latin-1 the property White_Space
  (U+1680, U+2000..U+200A, U+2028, U+2029, U+202F, U+205F, U+3000).
\<close>

definition IsSpace :: "rune \<Rightarrow> bool" where
  "IsSpace r =
     (if r \<le> 255 then r \<in> set [9, 10, 11, 12, 13, 32, 133, 160]
      else r = 5760 \<or> (8192 \<le> r \<and> r \<le> 8202) \<or> r = 8232 \<or> r = 8233
        \<or> r = 8239 \<or> r = 8287 \<or> r = 12288)"

definition TrimSpace :: "gostring \<Rightarrow> gostring" where
  "TrimSpace s = rev (dropWhile IsSpace (rev (dropWhile IsSpace s)))"

definition TrimLeft :: "gostring \<Rightarrow> gostring \<Rightarrow> gostring" where
  "TrimLeft s cutset = dropWhile (\<lambda>c. c \<in> set cutset) s"

definition TrimRight :: "gostring \<Rightarrow> gostring \<Rightarrow> gostring" where
  "TrimRight s cutset = rev (dropWhile (\<lambda>c. c \<in> set cutset) (rev s))"

definition ContainsAny :: "gostring \<Rightarrow> gostring \<Rightarrow> bool" where
  "ContainsAny s chars = list_ex (\<lambda>c. c \<in> set chars) s"

text \<open>
  \<^verbatim>\<open>strings.Split(s, sep)\<close> for a separator of one character: the pieces between the
  separators, one more piece than there are separators (so one empty piece for the
  empty string).
\<close>

fun Split :: "gostring \<Rightarrow> rune \<Rightarrow> gostring list" where
  "Split [] sep = [[]]"
| "Split (c # cs) sep =
     (if c = sep then [] # Split cs sep
      else (case Split cs sep of [] \<Rightarrow> [[c]] | p # ps \<Rightarrow> (c # p) # ps))"

fun Join :: "gostring list \<Rightarrow> gostring \<Rightarrow> gostring" where
  "Join [] sep = []"
| "Join [x] sep = x"
| "Join (x # y # ys) sep = x @ sep @ Join (y # ys) sep"

section \<open>Data model\<close>

text \<open>\<^verbatim>\<open>metricsql.LabelFilter\<close>, with the four fields acl.go sets.\<close>

record LabelFilter =
  Label :: gostring
  Value :: gostring
  IsRegexp :: bool
  IsNegative :: bool

text \<open>\<^verbatim>\<open>type ACL struct\<close>.\<close>

record ACL =
  Fullaccess :: bool
  LabelFilter :: LabelFilter
  RawACL :: gostring

text \<open>\<^verbatim>\<open>type ACLMap map[string]ACL\<close>.\<close>

type_synonym ACLMap = "gostring \<rightharpoonup> ACL"

text \<open>
  The errors of acl.go, one constructor for each \<^verbatim>\<open>fmt.Errorf\<close> with the values it
  formats, and \<open>External\<close> for an error of \<^verbatim>\<open>os.ReadFile\<close> or \<^verbatim>\<open>yaml.Unmarshal\<close>
  that loadACL passes on.
\<close>

datatype error =
    RoleContainsEmptyRawACL gostring
  | ConstructedEmptyRawACL
  | NoMatchingRolesFound
  | SpacesWithinElements gostring
  | NoValidElement gostring
  | RegexpError gostring gostring gostring
  | External gostring

section \<open>toSlice\<close>

fun toSlice_loop :: "gostring \<Rightarrow> gostring list \<Rightarrow> gostring list \<Rightarrow> error + gostring list" where
  "toSlice_loop raw [] buffer = Inr buffer"
| "toSlice_loop raw (s0 # rest) buffer =
     (let s = TrimSpace s0 in
      if list_ex IsSpace s then Inl (SpacesWithinElements raw)
      else if s \<noteq> [] then toSlice_loop raw rest (buffer @ [s])
      else toSlice_loop raw rest buffer)"

definition toSlice :: "gostring \<Rightarrow> error + gostring list" where
  "toSlice raw =
     (case toSlice_loop raw (Split raw 44) [] of
        Inl err \<Rightarrow> Inl err
      | Inr buffer \<Rightarrow>
          if length buffer = 0 then Inl (NoValidElement raw) else Inr buffer)"

section \<open>PrepareACL\<close>

definition getFullaccessACL :: ACL where
  "getFullaccessACL =
     \<lparr>Fullaccess = True,
      LabelFilter = \<lparr>Label = str ''namespace'', Value = str ''.*'',
                     IsRegexp = True, IsNegative = False\<rparr>,
      RawACL = str ''.*''\<rparr>"

text \<open>The four trims of the single-element branch, in the order of the source.\<close>

definition trimAnchors :: "gostring \<Rightarrow> gostring" where
  "trimAnchors e =
     TrimRight (TrimRight (TrimLeft (TrimLeft e (str ''^'')) (str ''('')) (str ''$'')) (str '')'')"

text \<open>
  The characters of the second argument of \<^verbatim>\<open>strings.ContainsAny\<close> in PrepareACL;
  the last one, 92, is the backslash.
\<close>

definition metaChars :: gostring where
  "metaChars = str ''.+*?^$()[]{}|'' @ [92]"

text \<open>
  \<^verbatim>\<open>regexp.Compile\<close> belongs to the Go library, not to the repository: PrepareACL takes
  it as the parameter \<open>compile\<close>, which gives the text of the error for a pattern the
  library rejects and \<open>None\<close> for one it accepts.
\<close>

definition PrepareACL :: "(gostring \<Rightarrow> gostring option) \<Rightarrow> gostring \<Rightarrow> error + ACL" where
  "PrepareACL compile rawACL =
     (let lf = \<lparr>Label = str ''namespace'', Value = [], IsRegexp = False, IsNegative = False\<rparr> in
      case toSlice rawACL of
        Inl err \<Rightarrow> Inl err
      | Inr buffer \<Rightarrow>
          if list_ex (\<lambda>v. v = str ''.*'') buffer then Inr getFullaccessACL
          else
            let (buffer, lf) =
              (if length buffer = 1 then
                 (if ContainsAny (buffer ! 0) metaChars then
                    (let buffer = buffer[0 := trimAnchors (buffer ! 0)]
                     in (buffer, lf\<lparr>IsRegexp := True, Value := buffer ! 0\<rparr>))
                  else (buffer, lf\<lparr>Value := buffer ! 0\<rparr>))
               else (buffer, lf\<lparr>Value := Join buffer (str ''|''), IsRegexp := True\<rparr>))
            in
              (case (if IsRegexp lf then compile (Value lf) else None) of
                 Some err \<Rightarrow> Inl (RegexpError err (Value lf) rawACL)
               | None \<Rightarrow>
                   Inr \<lparr>Fullaccess = False, LabelFilter = lf,
                        RawACL = Join buffer (str '', '')\<rparr>))"

section \<open>rolesToRawACL and getACL\<close>

fun rolesToRawACL_loop :: "ACLMap \<Rightarrow> gostring list \<Rightarrow> gostring list \<Rightarrow> error + gostring list" where
  "rolesToRawACL_loop a [] rawACLs = Inr rawACLs"
| "rolesToRawACL_loop a (role # rest) rawACLs =
     (case a role of
        Some acl \<Rightarrow>
          if RawACL acl = [] then Inl (RoleContainsEmptyRawACL role)
          else rolesToRawACL_loop a rest (rawACLs @ [RawACL acl])
      | None \<Rightarrow> rolesToRawACL_loop a rest (rawACLs @ [role]))"

definition rolesToRawACL :: "ACLMap \<Rightarrow> gostring list \<Rightarrow> error + gostring" where
  "rolesToRawACL a roles =
     (case rolesToRawACL_loop a roles [] of
        Inl err \<Rightarrow> Inl err
      | Inr rawACLs \<Rightarrow>
          (let rawACL = Join rawACLs (str '', '')
           in if rawACL = [] then Inl ConstructedEmptyRawACL else Inr rawACL))"

text \<open>
  The first loop of getACL: \<open>Inl\<close> is the early return with the ACL of a role that has
  full access, \<open>Inr\<close> the two slices \<open>roles\<close> and \<open>assumedRoles\<close> at the end of the loop.
\<close>

fun getACL_loop :: "ACLMap \<Rightarrow> gostring list \<Rightarrow> gostring list \<Rightarrow> gostring list
    \<Rightarrow> ACL + (gostring list \<times> gostring list)" where
  "getACL_loop a [] roles assumedRoles = Inr (roles, assumedRoles)"
| "getACL_loop a (role # rest) roles assumedRoles =
     (case a role of
        Some acl \<Rightarrow>
          if Fullaccess acl then Inl acl
          else getACL_loop a rest (roles @ [role]) assumedRoles
      | None \<Rightarrow> getACL_loop a rest roles (assumedRoles @ [role]))"

definition getACL :: "(gostring \<Rightarrow> gostring option) \<Rightarrow> ACLMap \<Rightarrow> gostring list \<Rightarrow> bool
    \<Rightarrow> error + ACL" where
  "getACL compile a oidcRoles assumedRolesEnabled =
     (case getACL_loop a oidcRoles [] [] of
        Inl acl \<Rightarrow> Inr acl
      | Inr (roles, assumedRoles) \<Rightarrow>
          (let roles = (if assumedRolesEnabled then roles @ assumedRoles else roles) in
           if length roles = 0 then Inl NoMatchingRolesFound
           else
             (case (if length roles = 1 then a (roles ! 0) else None) of
                Some acl \<Rightarrow> Inr acl
              | None \<Rightarrow>
                  (case rolesToRawACL a roles of
                     Inl err \<Rightarrow> Inl err
                   | Inr rawACL \<Rightarrow> PrepareACL compile rawACL))))"

section \<open>loadACL\<close>

text \<open>
  The file and its YAML decoding are outside the model: loadACL takes their outcome,
  either the error of \<^verbatim>\<open>os.ReadFile\<close> or \<^verbatim>\<open>yaml.Unmarshal\<close> or the decoded
  \<^verbatim>\<open>map[string]string\<close> as the list of its entries in the order in which
  \<^verbatim>\<open>range\<close> visits them (an order Go does not fix). Both results of the Go function
  are returned: the registry and the error (\<open>None\<close> for \<^verbatim>\<open>nil\<close>).
\<close>

fun loadACL_loop :: "(gostring \<Rightarrow> gostring option) \<Rightarrow> (gostring \<times> gostring) list \<Rightarrow> ACLMap
    \<Rightarrow> ACLMap \<times> error option" where
  "loadACL_loop compile [] aclMap = (aclMap, None)"
| "loadACL_loop compile ((role, rawACL) # rest) aclMap =
     (case PrepareACL compile rawACL of
        Inl err \<Rightarrow> (Map.empty, Some err)
      | Inr acl \<Rightarrow> loadACL_loop compile rest (aclMap(role \<mapsto> acl)))"

definition loadACL :: "(gostring \<Rightarrow> gostring option) \<Rightarrow> error + (gostring \<times> gostring) list
    \<Rightarrow> ACLMap \<times> error option" where
  "loadACL compile aclYaml =
     (case aclYaml of
        Inl err \<Rightarrow> (Map.empty, Some err)
      | Inr entries \<Rightarrow> loadACL_loop compile entries Map.empty)"

section \<open>Auxiliary notions and test data\<close>

text \<open>
  \<open>hasFullaccess a role\<close>: the test of the first loop of getACL, \<^verbatim>\<open>exists\<close> and
  \<^verbatim>\<open>a[role].Fullaccess\<close>.
\<close>

definition hasFullaccess :: "ACLMap \<Rightarrow> gostring \<Rightarrow> bool" where
  "hasFullaccess a role = (case a role of Some acl \<Rightarrow> Fullaccess acl | None \<Rightarrow> False)"

text \<open>
  The role list with its duplicates removed, the first occurrence of every name kept.
  The source has no such function; it is the notion the statements about duplicate
  roles compare getACL with.
\<close>

fun dedup :: "gostring list \<Rightarrow> gostring list" where
  "dedup [] = []"
| "dedup (x # xs) = x # dedup (removeAll x xs)"

text \<open>
  What toSlice guarantees of every element of its result: it is not empty and contains
  neither white space nor a comma.
\<close>

definition isElement :: "gostring \<Rightarrow> bool" where
  "isElement e = (e \<noteq> [] \<and> \<not> list_ex IsSpace e \<and> 44 \<notin> set e)"

text \<open>
  A stand-in for \<^verbatim>\<open>regexp.Compile\<close> at the concrete inputs evaluated below. It rejects
  the pattern \<^verbatim>\<open>[\<close>, which the library rejects (test "[ (incorrect regexp)" of
  TestACL_PrepareACL), and accepts every other pattern; the other patterns it is applied
  to below are accepted by the library.
\<close>

definition compileSample :: "gostring \<Rightarrow> gostring option" where
  "compileSample v =
     (if v = str ''['' then Some (str ''error parsing regexp: missing closing ]: `[`'') else None)"

text \<open>The registry of TestACL_GetACL.\<close>

definition testACLMap :: ACLMap where
  "testACLMap =
     [str ''admin'' \<mapsto> getFullaccessACL,
      str ''multiple-values'' \<mapsto>
        \<lparr>Fullaccess = False,
         LabelFilter = \<lparr>Label = str ''namespace'', Value = str ''ku.*|min.*'',
                        IsRegexp = True, IsNegative = False\<rparr>,
         RawACL = str ''ku.*, min.*''\<rparr>,
      str ''single-value'' \<mapsto>
        \<lparr>Fullaccess = False,
         LabelFilter = \<lparr>Label = str ''namespace'', Value = str ''default'',
                        IsRegexp = False, IsNegative = False\<rparr>,
         RawACL = str ''default''\<rparr>]"

section \<open>Evaluation\<close>

text \<open>The definitions a concrete call of PrepareACL unfolds to.\<close>

lemmas eval_defs = PrepareACL_def toSlice_def str_def TrimSpace_def IsSpace_def
  getFullaccessACL_def ContainsAny_def metaChars_def trimAnchors_def TrimLeft_def
  TrimRight_def compileSample_def Let_def

section \<open>The first loop of getACL\<close>

text \<open>
  The loop returns at the first role that has full access; when there is none it ends
  with the known roles in \<open>roles\<close> and the unknown ones in \<open>assumedRoles\<close>, both in the
  order of the input.
\<close>

lemma getACL_loop_full:
  "List.find (hasFullaccess a) xs = Some r \<Longrightarrow> getACL_loop a xs R A = Inl (the (a r))"
proof (induction xs arbitrary: R A)
  case Nil
  then show ?case by simp
next
  case (Cons x xs)
  then show ?case
    by (cases "a x") (auto simp: hasFullaccess_def split: if_splits)
qed

lemma getACL_loop_none:
  "List.find (hasFullaccess a) xs = None \<Longrightarrow>
   getACL_loop a xs R A =
     Inr (R @ filter (\<lambda>r. r \<in> dom a) xs, A @ filter (\<lambda>r. r \<notin> dom a) xs)"
proof (induction xs arbitrary: R A)
  case Nil
  then show ?case by simp
next
  case (Cons x xs)
  then show ?case
    by (cases "a x") (auto simp: hasFullaccess_def dom_def split: if_splits)
qed

lemma find_hasFullaccess_known:
  "List.find (hasFullaccess a) (filter (\<lambda>r. r \<in> dom a) xs) = List.find (hasFullaccess a) xs"
  by (induction xs) (auto simp: hasFullaccess_def dom_def split: option.splits)

lemma getACL_known_only:
  "getACL compile a xs False = getACL compile a (filter (\<lambda>r. r \<in> dom a) xs) False"
proof (cases "List.find (hasFullaccess a) xs")
  case None
  with find_hasFullaccess_known [of a xs] show ?thesis
    by (simp add: getACL_def getACL_loop_none)
next
  case (Some r)
  with find_hasFullaccess_known [of a xs] show ?thesis
    by (simp add: getACL_def getACL_loop_full)
qed

section \<open>Properties of getACL\<close>

text \<open>
  C7. Single-role fast path: when the working list (the known roles of the input, followed
  by the unknown ones if assumed roles are enabled) is exactly one role, and that role is
  a key of the registry without full access, getACL returns the ACL the registry stores
  for it, whatever \<^verbatim>\<open>regexp.Compile\<close> would say: nothing is compiled.
\<close>

theorem getACL_single_role:
  assumes "filter (\<lambda>r. r \<in> dom a) roles
             @ (if flag then filter (\<lambda>r. r \<notin> dom a) roles else []) = [role]"
    and "a role = Some acl" and "\<not> Fullaccess acl"
  shows "getACL compile a roles flag = Inr acl"
proof -
  have "List.find (hasFullaccess a) roles = None"
  proof (rule ccontr)
    assume "List.find (hasFullaccess a) roles \<noteq> None"
    then obtain r where "r \<in> set roles" and full: "hasFullaccess a r"
      by (auto simp: find_None_iff)
    then have "r \<in> set (filter (\<lambda>r. r \<in> dom a) roles)"
      by (auto simp: hasFullaccess_def dom_def split: option.splits)
    then have "r \<in> set (filter (\<lambda>r. r \<in> dom a) roles
                 @ (if flag then filter (\<lambda>r. r \<notin> dom a) roles else []))"
      by simp
    with assms(1) have "r = role" by simp
    with full assms(2,3) show False by (simp add: hasFullaccess_def)
  qed
  then have loop: "getACL_loop a roles [] [] =
      Inr (filter (\<lambda>r. r \<in> dom a) roles, filter (\<lambda>r. r \<notin> dom a) roles)"
    by (simp add: getACL_loop_none)
  have w: "(if flag then filter (\<lambda>r. r \<in> dom a) roles @ filter (\<lambda>r. r \<notin> dom a) roles
            else filter (\<lambda>r. r \<in> dom a) roles) = [role]"
    using assms(1) by (cases flag) simp_all
  show ?thesis
    unfolding getACL_def loop sum.case prod.case w Let_def
    using assms(2) by simp
qed

theorem getACL_single_role_witness:
  "filter (\<lambda>r. r \<in> dom testACLMap) [str ''unknown-role'', str ''single-value'']
     @ (if False then filter (\<lambda>r. r \<notin> dom testACLMap) [str ''unknown-role'', str ''single-value'']
        else []) = [str ''single-value'']
   \<and> testACLMap (str ''single-value'') =
       Some \<lparr>Fullaccess = False,
             LabelFilter = \<lparr>Label = str ''namespace'', Value = str ''default'',
                            IsRegexp = False, IsNegative = False\<rparr>,
             RawACL = str ''default''\<rparr>
   \<and> getACL compileSample testACLMap [str ''unknown-role'', str ''single-value''] False =
       Inr \<lparr>Fullaccess = False,
            LabelFilter = \<lparr>Label = str ''namespace'', Value = str ''default'',
                           IsRegexp = False, IsNegative = False\<rparr>,
            RawACL = str ''default''\<rparr>"
  using getACL_single_role
    [of testACLMap "[str ''unknown-role'', str ''single-value'']" False "str ''single-value''"
        "\<lparr>Fullaccess = False,
          LabelFilter = \<lparr>Label = str ''namespace'', Value = str ''default'',
                         IsRegexp = False, IsNegative = False\<rparr>,
          RawACL = str ''default''\<rparr>" compileSample]
  by (simp add: testACLMap_def str_def)

text \<open>
  C8. Full-access short-circuit: when some role of the list, at any position, is a key of
  the registry whose ACL has full access, getACL succeeds and returns an ACL with full
  access, the one the registry stores for a role of the list, whatever the other roles
  are and whether assumed roles are enabled or not.
\<close>

theorem getACL_fullaccess_any_position:
  assumes "r \<in> set roles" and "a r = Some acl" and "Fullaccess acl"
  shows "\<exists>r' acl'. r' \<in> set roles \<and> a r' = Some acl' \<and> Fullaccess acl'
           \<and> getACL compile a roles flag = Inr acl'"
proof -
  from assms have "hasFullaccess a r" by (simp add: hasFullaccess_def)
  with assms(1) obtain r' where f: "List.find (hasFullaccess a) roles = Some r'"
    by (cases "List.find (hasFullaccess a) roles") (auto simp: find_None_iff)
  then have mem: "r' \<in> set roles" and "hasFullaccess a r'"
    by (auto simp: find_Some_iff)
  then obtain acl' where "a r' = Some acl'" and "Fullaccess acl'"
    by (auto simp: hasFullaccess_def split: option.splits)
  moreover from f have "getACL compile a roles flag = Inr (the (a r'))"
    by (simp add: getACL_def getACL_loop_full)
  ultimately show ?thesis using mem by auto
qed

theorem getACL_fullaccess_any_position_witness:
  "str ''admin'' \<in> set [str ''multiple-values'', str ''unknown-role'', str ''admin'']
   \<and> testACLMap (str ''admin'') = Some getFullaccessACL \<and> Fullaccess getFullaccessACL
   \<and> (\<exists>r' acl'. r' \<in> set [str ''multiple-values'', str ''unknown-role'', str ''admin'']
         \<and> testACLMap r' = Some acl' \<and> Fullaccess acl'
         \<and> getACL compileSample testACLMap
              [str ''multiple-values'', str ''unknown-role'', str ''admin''] True = Inr acl')"
proof -
  have 1: "str ''admin'' \<in> set [str ''multiple-values'', str ''unknown-role'', str ''admin'']"
    by simp
  have 2: "testACLMap (str ''admin'') = Some getFullaccessACL"
    by (simp add: testACLMap_def str_def)
  have 3: "Fullaccess getFullaccessACL"
    by (simp add: getFullaccessACL_def)
  from getACL_fullaccess_any_position
         [of "str ''admin''" "[str ''multiple-values'', str ''unknown-role'', str ''admin'']"
             testACLMap getFullaccessACL compileSample True] 1 2 3
  show ?thesis by blast
qed

text \<open>
  C9. With assumed roles enabled an unknown role name becomes a pattern element as it is:
  in every registry that has no key \<^verbatim>\<open>.*\<close>, getACL on the role list with the one name
  \<^verbatim>\<open>.*\<close> succeeds and returns the canonical full-access ACL.
\<close>

theorem getACL_assumed_fullaccess:
  "a (str ''.*'') = None \<Longrightarrow> getACL compile a [str ''.*''] True = Inr getFullaccessACL"
  by (simp add: getACL_def rolesToRawACL_def PrepareACL_def toSlice_def str_def
      TrimSpace_def IsSpace_def)

theorem getACL_assumed_fullaccess_witness:
  "testACLMap (str ''.*'') = None
   \<and> getACL compileSample testACLMap [str ''.*''] True = Inr getFullaccessACL"
  using getACL_assumed_fullaccess [of testACLMap compileSample]
  by (simp add: testACLMap_def str_def)

text \<open>
  C10. Noninterference of unknown roles when assumed roles are disabled: two role lists
  with the same subsequence of registry keys get the same result from getACL, ACL or
  error, however they differ in unknown names.
\<close>

theorem getACL_noninterference:
  "filter (\<lambda>r. r \<in> dom a) xs = filter (\<lambda>r. r \<in> dom a) ys \<Longrightarrow>
   getACL compile a xs False = getACL compile a ys False"
  using getACL_known_only [of compile a xs] getACL_known_only [of compile a ys] by simp

theorem getACL_noninterference_witness:
  "filter (\<lambda>r. r \<in> dom testACLMap) [str ''single-value'', str ''unknown-role'']
     = filter (\<lambda>r. r \<in> dom testACLMap) [str ''intruder'', str ''single-value'', str ''x'']
   \<and> getACL compileSample testACLMap [str ''single-value'', str ''unknown-role''] False
     = getACL compileSample testACLMap [str ''intruder'', str ''single-value'', str ''x''] False"
  using getACL_noninterference [of testACLMap "[str ''single-value'', str ''unknown-role'']"
      "[str ''intruder'', str ''single-value'', str ''x'']" compileSample]
  by (simp add: testACLMap_def str_def)

section \<open>Duplicate roles\<close>

lemma find_removeAll: "\<not> P x \<Longrightarrow> List.find P (removeAll x xs) = List.find P xs"
  by (induction xs) auto

lemma find_dedup: "List.find P (dedup xs) = List.find P xs"
  by (induction xs rule: dedup.induct) (auto simp: find_removeAll)

lemma filter_removeAll: "filter P (removeAll x xs) = removeAll x (filter P xs)"
  by (induction xs) auto

lemma filter_dedup: "filter P (dedup xs) = dedup (filter P xs)"
proof (induction xs rule: dedup.induct)
  case 1
  then show ?case by simp
next
  case (2 x xs)
  show ?case
  proof (cases "P x")
    case True
    with 2 show ?thesis by (simp add: filter_removeAll)
  next
    case False
    then have "removeAll x (filter P xs) = filter P xs" by simp
    with False 2 show ?thesis by (simp add: filter_removeAll)
  qed
qed

lemma dedup_distinct: "distinct xs \<Longrightarrow> dedup xs = xs"
  by (induction xs) auto

text \<open>
  C1 (as amended). A role list with duplicates gets the same result from getACL, ACL or
  error, as the list with the duplicates removed, when a role of the list has full access
  in the registry, or when the working list (the known roles, followed by the unknown
  ones if assumed roles are enabled) has no duplicate, that is, when only dropped unknown
  roles are repeated. A role repeated in the working list contributes its raw ACL once
  for every occurrence, and nothing is claimed of the result then.
\<close>

theorem getACL_duplicates:
  assumes "(\<exists>r acl. r \<in> set roles \<and> a r = Some acl \<and> Fullaccess acl)
           \<or> distinct (filter (\<lambda>r. r \<in> dom a) roles
                 @ (if flag then filter (\<lambda>r. r \<notin> dom a) roles else []))"
  shows "getACL compile a roles flag = getACL compile a (dedup roles) flag"
proof (cases "List.find (hasFullaccess a) roles")
  case (Some r)
  then show ?thesis
    by (simp add: getACL_def getACL_loop_full find_dedup)
next
  case None
  then have "\<not> (\<exists>r acl. r \<in> set roles \<and> a r = Some acl \<and> Fullaccess acl)"
    by (auto simp: find_None_iff hasFullaccess_def)
  with assms have d: "distinct (filter (\<lambda>r. r \<in> dom a) roles
                 @ (if flag then filter (\<lambda>r. r \<notin> dom a) roles else []))"
    by blast
  then have k: "filter (\<lambda>r. r \<in> dom a) (dedup roles) = filter (\<lambda>r. r \<in> dom a) roles"
    by (simp add: filter_dedup dedup_distinct)
  from d have u: "flag \<Longrightarrow> filter (\<lambda>r. r \<notin> dom a) (dedup roles) = filter (\<lambda>r. r \<notin> dom a) roles"
    by (simp add: filter_dedup dedup_distinct)
  from None have "List.find (hasFullaccess a) (dedup roles) = None"
    by (simp add: find_dedup)
  with None k u show ?thesis
    by (cases flag) (simp_all add: getACL_def getACL_loop_none)
qed

theorem getACL_duplicates_witness:
  "(\<exists>r acl. r \<in> set [str ''single-value'', str ''admin'', str ''single-value'']
       \<and> testACLMap r = Some acl \<and> Fullaccess acl)
   \<and> dedup [str ''single-value'', str ''admin'', str ''single-value'']
       = [str ''single-value'', str ''admin'']
   \<and> getACL compileSample testACLMap [str ''single-value'', str ''admin'', str ''single-value''] False
       = Inr getFullaccessACL
   \<and> getACL compileSample testACLMap [str ''single-value'', str ''admin''] False
       = Inr getFullaccessACL
   \<and> distinct (filter (\<lambda>r. r \<in> dom testACLMap) [str ''x'', str ''single-value'', str ''x'']
         @ (if False then filter (\<lambda>r. r \<notin> dom testACLMap) [str ''x'', str ''single-value'', str ''x'']
            else []))
   \<and> getACL compileSample testACLMap [str ''x'', str ''single-value'', str ''x''] False
       = getACL compileSample testACLMap (dedup [str ''x'', str ''single-value'', str ''x'']) False"
proof -
  let ?roles = "[str ''single-value'', str ''admin'', str ''single-value'']"
  let ?roles' = "[str ''x'', str ''single-value'', str ''x'']"
  have "str ''admin'' \<in> set ?roles \<and> testACLMap (str ''admin'') = Some getFullaccessACL
      \<and> Fullaccess getFullaccessACL"
    by (simp add: testACLMap_def str_def getFullaccessACL_def)
  then have h: "\<exists>r acl. r \<in> set ?roles \<and> testACLMap r = Some acl \<and> Fullaccess acl"
    by blast
  have d: "dedup ?roles = [str ''single-value'', str ''admin'']"
    by (simp add: str_def)
  have r: "getACL compileSample testACLMap ?roles False = Inr getFullaccessACL"
    by (simp add: getACL_def testACLMap_def str_def getFullaccessACL_def)
  from getACL_duplicates [where a = testACLMap and roles = ?roles and flag = False
      and compile = compileSample] h
  have e: "getACL compileSample testACLMap ?roles False
      = getACL compileSample testACLMap (dedup ?roles) False"
    by blast
  have h': "distinct (filter (\<lambda>r. r \<in> dom testACLMap) ?roles'
         @ (if False then filter (\<lambda>r. r \<notin> dom testACLMap) ?roles' else []))"
    by (simp add: testACLMap_def str_def)
  from getACL_duplicates [where a = testACLMap and roles = ?roles' and flag = False
      and compile = compileSample] h'
  have e': "getACL compileSample testACLMap ?roles' False
      = getACL compileSample testACLMap (dedup ?roles') False"
    by blast
  from h d r e h' e' show ?thesis by simp
qed

text \<open>
  C1 as stated fails: one known role is answered by its stored ACL, the same role twice by
  the compilation of its raw ACL taken twice.
\<close>

theorem getACL_duplicates_counterexample:
  "dedup [str ''single-value'', str ''single-value''] = [str ''single-value'']
   \<and> getACL compileSample testACLMap [str ''single-value''] False =
       Inr \<lparr>Fullaccess = False,
            LabelFilter = \<lparr>Label = str ''namespace'', Value = str ''default'',
                           IsRegexp = False, IsNegative = False\<rparr>,
            RawACL = str ''default''\<rparr>
   \<and> getACL compileSample testACLMap [str ''single-value'', str ''single-value''] False =
       Inr \<lparr>Fullaccess = False,
            LabelFilter = \<lparr>Label = str ''namespace'', Value = str ''default|default'',
                           IsRegexp = True, IsNegative = False\<rparr>,
            RawACL = str ''default, default''\<rparr>"
  by (simp add: getACL_def rolesToRawACL_def testACLMap_def eval_defs)

section \<open>toSlice and the normalized raw ACL\<close>

text \<open>
  The elements toSlice returns are non-empty and free of white space and commas, and
  toSlice reads such a sequence back from its join with \<^verbatim>\<open>", "\<close>.
\<close>

lemma Split_not_Nil: "Split s sep \<noteq> []"
  by (induction s) (auto split: list.splits)

lemma Split_no_sep: "sep \<notin> set x \<Longrightarrow> Split x sep = [x]"
  by (induction x) auto

lemma Split_append_sep: "sep \<notin> set x \<Longrightarrow> Split (x @ sep # rest) sep = x # Split rest sep"
  by (induction x) auto

lemma Split_pieces: "p \<in> set (Split s sep) \<Longrightarrow> sep \<notin> set p"
proof (induction s arbitrary: p)
  case Nil
  then show ?case by simp
next
  case (Cons c cs)
  show ?case
  proof (cases "c = sep")
    case True
    with Cons show ?thesis by auto
  next
    case False
    obtain q qs where q: "Split cs sep = q # qs"
      using Split_not_Nil [of cs sep] by (cases "Split cs sep") auto
    with False Cons.prems have "p = c # q \<or> p \<in> set qs" by auto
    with q False Cons.IH [of q] Cons.IH [of p] show ?thesis by auto
  qed
qed

lemma dropWhile_none: "\<not> list_ex P e \<Longrightarrow> dropWhile P e = e"
  by (cases e) (auto simp: list_ex_iff)

lemma TrimSpace_id: "\<not> list_ex IsSpace e \<Longrightarrow> TrimSpace e = e"
  by (simp add: TrimSpace_def dropWhile_none list_ex_iff)

lemma TrimSpace_space: "\<not> list_ex IsSpace e \<Longrightarrow> TrimSpace (32 # e) = e"
  by (simp add: TrimSpace_def dropWhile_none list_ex_iff IsSpace_def)

lemma set_TrimSpace: "set (TrimSpace s) \<subseteq> set s"
  unfolding TrimSpace_def
  by (metis set_dropWhileD set_rev subsetI)

lemma toSlice_loop_elements:
  "toSlice_loop raw ps buffer = Inr b \<Longrightarrow> list_all isElement buffer \<Longrightarrow>
   list_all (\<lambda>p. 44 \<notin> set p) ps \<Longrightarrow> list_all isElement b"
proof (induction ps arbitrary: buffer)
  case Nil
  then show ?case by simp
next
  case (Cons p ps)
  from Cons.prems(3) have "44 \<notin> set (TrimSpace p)"
    using set_TrimSpace [of p] by auto
  with Cons show ?case
    by (auto simp: Let_def isElement_def split: if_splits)
qed

lemma toSlice_elements:
  assumes "toSlice raw = Inr b"
  shows "b \<noteq> []" and "list_all isElement b"
proof -
  from assms obtain b' where l: "toSlice_loop raw (Split raw 44) [] = Inr b'"
    by (auto simp: toSlice_def split: sum.splits)
  with assms show "b \<noteq> []" by (auto simp: toSlice_def split: if_splits)
  have "list_all (\<lambda>p. 44 \<notin> set p) (Split raw 44)"
    by (auto simp: list_all_iff dest: Split_pieces)
  with l have "list_all isElement b'"
    by (auto intro: toSlice_loop_elements)
  with assms l show "list_all isElement b" by (auto simp: toSlice_def split: if_splits)
qed

lemma Split_Join:
  "list_all (\<lambda>e. 44 \<notin> set e) (e # es) \<Longrightarrow>
   Split (Join (e # es) (str '', '')) 44 = e # map ((#) 32) es"
proof (induction es arbitrary: e)
  case Nil
  then show ?case by (simp add: Split_no_sep)
next
  case (Cons y ys)
  have "Join (e # y # ys) (str '', '') = e @ 44 # 32 # Join (y # ys) (str '', '')"
    by (simp add: str_def)
  moreover from Cons.prems have "44 \<notin> set e" by simp
  moreover from Cons have "Split (Join (y # ys) (str '', '')) 44 = y # map ((#) 32) ys"
    by simp
  ultimately show ?case by (simp add: Split_append_sep)
qed

lemma toSlice_loop_trimmed:
  "list_all (\<lambda>p. isElement (TrimSpace p)) ps \<Longrightarrow>
   toSlice_loop raw ps buffer = Inr (buffer @ map TrimSpace ps)"
  by (induction ps arbitrary: buffer) (auto simp: Let_def isElement_def)

lemma toSlice_Join:
  assumes "b \<noteq> []" and "list_all isElement b"
  shows "toSlice (Join b (str '', '')) = Inr b"
proof -
  from assms(1) obtain e es where b: "b = e # es" by (cases b) auto
  with assms(2) have "list_all (\<lambda>e. 44 \<notin> set e) (e # es)"
    by (auto simp: list_all_iff isElement_def)
  then have s: "Split (Join b (str '', '')) 44 = e # map ((#) 32) es"
    unfolding b by (rule Split_Join)
  from assms(2) b have t: "map TrimSpace (e # map ((#) 32) es) = e # es"
    by (auto simp: list_all_iff isElement_def TrimSpace_id TrimSpace_space map_idI)
  with assms(2) b have "list_all (\<lambda>p. isElement (TrimSpace p)) (e # map ((#) 32) es)"
    by (auto simp: list_all_iff isElement_def TrimSpace_id TrimSpace_space)
  from toSlice_loop_trimmed [OF this, of "Join b (str '', '')" "[]"] t s b
  show ?thesis by (simp add: toSlice_def)
qed

lemma PrepareACL_cong:
  "toSlice s = toSlice s' \<Longrightarrow> PrepareACL compile s = Inr acl \<Longrightarrow> PrepareACL compile s' = Inr acl"
  by (auto simp: PrepareACL_def Let_def split: sum.splits if_splits option.splits)

lemma set_trimAnchors: "set (trimAnchors e) \<subseteq> set e"
proof -
  have l: "set (TrimLeft s c) \<subseteq> set s" for s c
    unfolding TrimLeft_def by (auto dest: set_dropWhileD)
  have r: "set (TrimRight s c) \<subseteq> set s" for s c
    unfolding TrimRight_def by (metis set_dropWhileD set_rev subsetI)
  show ?thesis
    unfolding trimAnchors_def
    by (meson l r subset_trans)
qed

lemma Join_two_has_comma: "44 \<in> set (Join (x # y # ys) (str '', ''))"
  by (simp add: str_def)

section \<open>Properties of PrepareACL\<close>

text \<open>
  C2 (as amended). When PrepareACL succeeds, the ACL has full access if and only if its
  label filter is exactly label namespace, value \<^verbatim>\<open>.*\<close>, regexp, not negative, and
  its raw ACL is \<^verbatim>\<open>.*\<close>, with one exception: a pattern that is a single element other
  than \<^verbatim>\<open>.*\<close> which the trims turn into \<^verbatim>\<open>.*\<close> (such as \<^verbatim>\<open>^.*$\<close> or
  \<^verbatim>\<open>(.*)\<close>) compiles to that filter and raw ACL with Fullaccess false, because the check
  for \<^verbatim>\<open>.*\<close> comes before the anchors are trimmed.
\<close>

theorem PrepareACL_fullaccess:
  assumes ok: "PrepareACL compile rawACL = Inr acl"
    and parse: "toSlice rawACL = Inr buffer"
  shows "if length buffer = 1 \<and> buffer ! 0 \<noteq> str ''.*'' \<and> trimAnchors (buffer ! 0) = str ''.*''
         then \<not> Fullaccess acl
           \<and> LabelFilter acl = \<lparr>Label = str ''namespace'', Value = str ''.*'',
                                 IsRegexp = True, IsNegative = False\<rparr>
           \<and> RawACL acl = str ''.*''
         else Fullaccess acl =
           (LabelFilter acl = \<lparr>Label = str ''namespace'', Value = str ''.*'',
                                IsRegexp = True, IsNegative = False\<rparr>
            \<and> RawACL acl = str ''.*'')"
proof (cases "list_ex (\<lambda>v. v = str ''.*'') buffer")
  case True
  with ok parse have acl: "acl = getFullaccessACL"
    by (simp add: PrepareACL_def)
  have "\<not> (length buffer = 1 \<and> buffer ! 0 \<noteq> str ''.*'')"
  proof
    assume "length buffer = 1 \<and> buffer ! 0 \<noteq> str ''.*''"
    then obtain e where "buffer = [e]" and "e \<noteq> str ''.*''"
      by (cases buffer) auto
    with True show False by simp
  qed
  with acl show ?thesis
    by (auto simp: getFullaccessACL_def)
next
  case nofull: False
  with ok parse have nf: "\<not> Fullaccess acl"
    by (auto simp: PrepareACL_def Let_def split: if_splits option.splits)
  show ?thesis
  proof (cases buffer)
    case Nil
    with toSlice_elements(1) [OF parse] show ?thesis by simp
  next
    case (Cons e es)
    show ?thesis
    proof (cases es)
      case Nil
      with Cons have b: "buffer = [e]" by simp
      from nofull b have ne: "e \<noteq> str ''.*''" by simp
      show ?thesis
      proof (cases "ContainsAny e metaChars")
        case True
        with ok parse nofull b
        have "acl = \<lparr>Fullaccess = False,
            LabelFilter = \<lparr>Label = str ''namespace'', Value = trimAnchors e,
                           IsRegexp = True, IsNegative = False\<rparr>,
            RawACL = trimAnchors e\<rparr>"
          by (auto simp: PrepareACL_def Let_def split: option.splits)
        with b ne show ?thesis by auto
      next
        case False
        with ok parse nofull b
        have acl: "acl = \<lparr>Fullaccess = False,
            LabelFilter = \<lparr>Label = str ''namespace'', Value = e,
                           IsRegexp = False, IsNegative = False\<rparr>,
            RawACL = e\<rparr>"
          by (auto simp: PrepareACL_def Let_def split: option.splits)
        have "set (str ''.*'') \<subseteq> set metaChars"
          by (simp add: str_def metaChars_def)
        have "trimAnchors e \<noteq> str ''.*''"
        proof
          assume t: "trimAnchors e = str ''.*''"
          have "46 \<in> set (trimAnchors e)" unfolding t by (simp add: str_def)
          with set_trimAnchors [of e] have "46 \<in> set e" by auto
          moreover have "46 \<in> set metaChars" by (simp add: str_def metaChars_def)
          ultimately show False using False by (auto simp: ContainsAny_def list_ex_iff)
        qed
        with acl b ne show ?thesis by auto
      qed
    next
      case (Cons y ys)
      with \<open>buffer = e # es\<close> have b: "buffer = e # y # ys" by simp
      with ok parse nofull have "RawACL acl = Join (e # y # ys) (str '', '')"
        by (auto simp: PrepareACL_def Let_def split: option.splits)
      with Join_two_has_comma [of e y ys] have "44 \<in> set (RawACL acl)" by simp
      then have "RawACL acl \<noteq> str ''.*''" by (auto simp: str_def)
      with nf b show ?thesis by simp
    qed
  qed
qed

theorem PrepareACL_fullaccess_witness:
  "PrepareACL compileSample (str ''min.*, .*, stolon'') = Inr getFullaccessACL
   \<and> toSlice (str ''min.*, .*, stolon'') = Inr [str ''min.*'', str ''.*'', str ''stolon'']
   \<and> Fullaccess getFullaccessACL
   \<and> LabelFilter getFullaccessACL = \<lparr>Label = str ''namespace'', Value = str ''.*'',
                                         IsRegexp = True, IsNegative = False\<rparr>
   \<and> RawACL getFullaccessACL = str ''.*''
   \<and> PrepareACL compileSample (str ''min.*'') =
       Inr \<lparr>Fullaccess = False,
            LabelFilter = \<lparr>Label = str ''namespace'', Value = str ''min.*'',
                           IsRegexp = True, IsNegative = False\<rparr>,
            RawACL = str ''min.*''\<rparr>
   \<and> toSlice (str ''min.*'') = Inr [str ''min.*'']
   \<and> trimAnchors (str ''min.*'') \<noteq> str ''.*''
   \<and> PrepareACL compileSample (str ''(.*)'') =
       Inr \<lparr>Fullaccess = False,
            LabelFilter = \<lparr>Label = str ''namespace'', Value = str ''.*'',
                           IsRegexp = True, IsNegative = False\<rparr>,
            RawACL = str ''.*''\<rparr>
   \<and> toSlice (str ''(.*)'') = Inr [str ''(.*)'']
   \<and> trimAnchors (str ''(.*)'') = str ''.*''"
proof -
  let ?m = "\<lparr>Fullaccess = False,
            LabelFilter = \<lparr>Label = str ''namespace'', Value = str ''min.*'',
                           IsRegexp = True, IsNegative = False\<rparr>,
            RawACL = str ''min.*''\<rparr>"
  have ok1: "PrepareACL compileSample (str ''min.*, .*, stolon'') = Inr getFullaccessACL"
    by (simp add: eval_defs)
  have p1: "toSlice (str ''min.*, .*, stolon'') = Inr [str ''min.*'', str ''.*'', str ''stolon'']"
    by (simp add: eval_defs)
  from PrepareACL_fullaccess [OF ok1 p1]
  have r1: "Fullaccess getFullaccessACL
      \<and> LabelFilter getFullaccessACL = \<lparr>Label = str ''namespace'', Value = str ''.*'',
                                            IsRegexp = True, IsNegative = False\<rparr>
      \<and> RawACL getFullaccessACL = str ''.*''"
    by (simp add: getFullaccessACL_def)
  have ok2: "PrepareACL compileSample (str ''min.*'') = Inr ?m"
    by (simp add: eval_defs)
  have p2: "toSlice (str ''min.*'') = Inr [str ''min.*'']"
    by (simp add: eval_defs)
  have t2: "trimAnchors (str ''min.*'') \<noteq> str ''.*''"
    by (simp add: eval_defs)
  from PrepareACL_fullaccess [OF ok2 p2] t2
  have r2: "Fullaccess ?m = (LabelFilter ?m = \<lparr>Label = str ''namespace'', Value = str ''.*'',
                                IsRegexp = True, IsNegative = False\<rparr> \<and> RawACL ?m = str ''.*'')"
    by simp
  have ok3: "PrepareACL compileSample (str ''(.*)'') =
       Inr \<lparr>Fullaccess = False,
            LabelFilter = \<lparr>Label = str ''namespace'', Value = str ''.*'',
                           IsRegexp = True, IsNegative = False\<rparr>,
            RawACL = str ''.*''\<rparr>"
    by (simp add: eval_defs)
  have p3: "toSlice (str ''(.*)'') = Inr [str ''(.*)'']"
    by (simp add: eval_defs)
  have t3: "trimAnchors (str ''(.*)'') = str ''.*''"
    by (simp add: eval_defs)
  from ok1 p1 r1 ok2 p2 t2 ok3 p3 t3 show ?thesis by blast
qed

text \<open>
  C2 as stated fails: the single element \<^verbatim>\<open>^.*$\<close> is not the literal \<^verbatim>\<open>.*\<close>, its
  anchors are trimmed after the check, and the result has the filter and the raw ACL of
  full access with Fullaccess false.
\<close>

theorem PrepareACL_fullaccess_counterexample:
  "PrepareACL compileSample (str ''^.*$'') =
     Inr \<lparr>Fullaccess = False,
          LabelFilter = \<lparr>Label = str ''namespace'', Value = str ''.*'',
                         IsRegexp = True, IsNegative = False\<rparr>,
          RawACL = str ''.*''\<rparr>"
  by (simp add: eval_defs)

text \<open>
  C3. The anchors of the elements of a pattern with more than one element: at
  \<^verbatim>\<open>^a$, b\<close> PrepareACL keeps them in the value and in the raw ACL, while the single
  element \<^verbatim>\<open>^a$\<close> loses them.
\<close>

theorem PrepareACL_multi_keeps_anchors:
  "PrepareACL compileSample (str ''^a$, b'') =
     Inr \<lparr>Fullaccess = False,
          LabelFilter = \<lparr>Label = str ''namespace'', Value = str ''^a$|b'',
                         IsRegexp = True, IsNegative = False\<rparr>,
          RawACL = str ''^a$, b''\<rparr>
   \<and> PrepareACL compileSample (str ''^a$'') =
     Inr \<lparr>Fullaccess = False,
          LabelFilter = \<lparr>Label = str ''namespace'', Value = str ''a'',
                         IsRegexp = True, IsNegative = False\<rparr>,
          RawACL = str ''a''\<rparr>"
  by (simp add: eval_defs)

text \<open>
  C4 (as amended). Compiling the raw ACL of a result again: for every raw pattern on which
  PrepareACL succeeds, PrepareACL succeeds on the RawACL of the result with the same ACL,
  provided that, when the pattern is a single element other than \<^verbatim>\<open>.*\<close> with a regexp
  metacharacter, the trimmed element is not \<^verbatim>\<open>.*\<close>, still has a metacharacter and
  has no anchor left for a second trim. Patterns with full access, with several elements
  or with a single literal element need no proviso.
\<close>

theorem PrepareACL_idempotent:
  assumes ok: "PrepareACL compile s = Inr acl"
    and parse: "toSlice s = Inr b"
    and single: "length b = 1 \<and> b ! 0 \<noteq> str ''.*'' \<and> ContainsAny (b ! 0) metaChars \<longrightarrow>
        trimAnchors (b ! 0) \<noteq> str ''.*''
        \<and> ContainsAny (trimAnchors (b ! 0)) metaChars
        \<and> trimAnchors (trimAnchors (b ! 0)) = trimAnchors (b ! 0)"
  shows "PrepareACL compile (RawACL acl) = Inr acl"
proof -
  note elems = toSlice_elements [OF parse]
  show ?thesis
  proof (cases "list_ex (\<lambda>v. v = str ''.*'') b")
    case True
    with ok parse have "acl = getFullaccessACL"
      by (simp add: PrepareACL_def)
    then show ?thesis
      by (simp add: eval_defs)
  next
    case nofull: False
    show ?thesis
    proof (cases "length b = 1 \<and> ContainsAny (b ! 0) metaChars")
      case False
      with ok parse nofull have "RawACL acl = Join b (str '', '')"
        by (auto simp: PrepareACL_def Let_def split: if_splits option.splits)
      with elems parse have "toSlice s = toSlice (RawACL acl)"
        by (simp add: toSlice_Join)
      from PrepareACL_cong [OF this ok] show ?thesis .
    next
      case True
      then obtain e where b: "b = [e]" and meta: "ContainsAny e metaChars"
        by (cases b) auto
      let ?e = "trimAnchors e"
      from nofull b have "e \<noteq> str ''.*''" by simp
      with single b meta have e1: "?e \<noteq> str ''.*''" and e2: "ContainsAny ?e metaChars"
        and e3: "trimAnchors ?e = ?e"
        by simp_all
      from ok parse nofull b meta
      have acl: "acl = \<lparr>Fullaccess = False,
            LabelFilter = \<lparr>Label = str ''namespace'', Value = ?e,
                           IsRegexp = True, IsNegative = False\<rparr>,
            RawACL = ?e\<rparr>" and c: "compile ?e = None"
        by (auto simp: PrepareACL_def Let_def split: option.splits)
      from e2 have "?e \<noteq> []" by (auto simp: ContainsAny_def)
      moreover from elems(2) b set_trimAnchors [of e]
      have "\<not> list_ex IsSpace ?e" and "44 \<notin> set ?e"
        by (auto simp: isElement_def list_ex_iff)
      ultimately have "list_all isElement [?e]" by (simp add: isElement_def)
      from toSlice_Join [OF _ this] have "toSlice ?e = Inr [?e]" by simp
      with e1 e2 e3 c acl show ?thesis
        by (simp add: PrepareACL_def)
    qed
  qed
qed

theorem PrepareACL_idempotent_witness:
  "PrepareACL compileSample (str ''^(min.*)$'') =
     Inr \<lparr>Fullaccess = False,
          LabelFilter = \<lparr>Label = str ''namespace'', Value = str ''min.*'',
                         IsRegexp = True, IsNegative = False\<rparr>,
          RawACL = str ''min.*''\<rparr>
   \<and> toSlice (str ''^(min.*)$'') = Inr [str ''^(min.*)$'']
   \<and> trimAnchors (str ''^(min.*)$'') = str ''min.*''
   \<and> ContainsAny (str ''min.*'') metaChars
   \<and> trimAnchors (str ''min.*'') = str ''min.*''
   \<and> PrepareACL compileSample (str ''min.*'') =
     Inr \<lparr>Fullaccess = False,
          LabelFilter = \<lparr>Label = str ''namespace'', Value = str ''min.*'',
                         IsRegexp = True, IsNegative = False\<rparr>,
          RawACL = str ''min.*''\<rparr>"
proof -
  let ?acl = "\<lparr>Fullaccess = False,
          LabelFilter = \<lparr>Label = str ''namespace'', Value = str ''min.*'',
                         IsRegexp = True, IsNegative = False\<rparr>,
          RawACL = str ''min.*''\<rparr>"
  have ok: "PrepareACL compileSample (str ''^(min.*)$'') = Inr ?acl"
    by (simp add: eval_defs)
  have parse: "toSlice (str ''^(min.*)$'') = Inr [str ''^(min.*)$'']"
    by (simp add: eval_defs)
  have t1: "trimAnchors (str ''^(min.*)$'') = str ''min.*''"
    by (simp add: eval_defs)
  have t2: "ContainsAny (str ''min.*'') metaChars"
    by (simp add: eval_defs)
  have t3: "trimAnchors (str ''min.*'') = str ''min.*''"
    by (simp add: eval_defs)
  have t4: "str ''min.*'' \<noteq> str ''.*''"
    by (simp add: str_def)
  from PrepareACL_idempotent [where compile = compileSample and s = "str ''^(min.*)$''"
      and acl = ?acl and b = "[str ''^(min.*)$'']"] ok parse t1 t2 t3 t4
  have "PrepareACL compileSample (RawACL ?acl) = Inr ?acl"
    by simp
  then have "PrepareACL compileSample (str ''min.*'') = Inr ?acl" by simp
  with ok parse t1 t2 t3 show ?thesis by blast
qed

text \<open>
  C4 as stated fails: \<^verbatim>\<open>^min$\<close> compiles to the regexp filter \<^verbatim>\<open>min\<close> with raw ACL
  \<^verbatim>\<open>min\<close>, which compiles to a filter that is not a regexp; \<^verbatim>\<open>^\<close> compiles to the
  empty raw ACL, which does not compile.
\<close>

theorem PrepareACL_idempotent_counterexample:
  "PrepareACL compileSample (str ''^min$'') =
     Inr \<lparr>Fullaccess = False,
          LabelFilter = \<lparr>Label = str ''namespace'', Value = str ''min'',
                         IsRegexp = True, IsNegative = False\<rparr>,
          RawACL = str ''min''\<rparr>
   \<and> PrepareACL compileSample (str ''min'') =
     Inr \<lparr>Fullaccess = False,
          LabelFilter = \<lparr>Label = str ''namespace'', Value = str ''min'',
                         IsRegexp = False, IsNegative = False\<rparr>,
          RawACL = str ''min''\<rparr>
   \<and> PrepareACL compileSample (str ''^'') =
     Inr \<lparr>Fullaccess = False,
          LabelFilter = \<lparr>Label = str ''namespace'', Value = str '''',
                         IsRegexp = True, IsNegative = False\<rparr>,
          RawACL = str ''''\<rparr>
   \<and> PrepareACL compileSample (str '''') = Inl (NoValidElement (str ''''))"
  by (simp add: eval_defs)

text \<open>
  C5 (as amended). Absorption: when toSlice accepts the raw pattern and one of its
  elements is the literal \<^verbatim>\<open>.*\<close>, at any position, PrepareACL returns the canonical
  full-access ACL whatever \<^verbatim>\<open>regexp.Compile\<close> says of the other elements: they are
  never compiled. The check of toSlice for white space inside an element comes first and
  is not skipped.
\<close>

theorem PrepareACL_absorption:
  "toSlice rawACL = Inr buffer \<Longrightarrow> str ''.*'' \<in> set buffer \<Longrightarrow>
   PrepareACL compile rawACL = Inr getFullaccessACL"
  by (auto simp: PrepareACL_def list_ex_iff)

theorem PrepareACL_absorption_witness:
  "toSlice (str ''[, .*, a(b'') = Inr [str ''['', str ''.*'', str ''a(b'']
   \<and> str ''.*'' \<in> set [str ''['', str ''.*'', str ''a(b'']
   \<and> compileSample (str ''['') \<noteq> None
   \<and> PrepareACL compileSample (str ''[, .*, a(b'') = Inr getFullaccessACL"
  using PrepareACL_absorption [of "str ''[, .*, a(b''" "[str ''['', str ''.*'', str ''a(b'']" compileSample]
  by (simp add: toSlice_def str_def TrimSpace_def IsSpace_def compileSample_def)

text \<open>
  C5 as stated fails for an element with white space inside: toSlice rejects the whole
  pattern before the elements are searched for \<^verbatim>\<open>.*\<close>.
\<close>

theorem PrepareACL_absorption_counterexample:
  "PrepareACL compileSample (str ''a b, .*'') = Inl (SpacesWithinElements (str ''a b, .*''))"
  by (simp add: PrepareACL_def toSlice_def str_def TrimSpace_def IsSpace_def)

section \<open>Properties of loadACL\<close>

lemma loadACL_loop_fails:
  "list_ex (\<lambda>(role, rawACL). isl (PrepareACL compile rawACL)) entries \<Longrightarrow>
   \<exists>role rawACL err. (role, rawACL) \<in> set entries \<and> PrepareACL compile rawACL = Inl err
      \<and> loadACL_loop compile entries aclMap = (Map.empty, Some err)"
proof (induction entries arbitrary: aclMap)
  case Nil
  then show ?case by simp
next
  case (Cons e entries)
  obtain role rawACL where e: "e = (role, rawACL)" by (cases e)
  show ?case
  proof (cases "PrepareACL compile rawACL")
    case (Inl err)
    with e show ?thesis by auto
  next
    case (Inr acl)
    with Cons.prems e have "list_ex (\<lambda>(role, rawACL). isl (PrepareACL compile rawACL)) entries"
      by simp
    from Cons.IH [OF this, of "aclMap(role \<mapsto> acl)"]
    obtain r raw err where "(r, raw) \<in> set entries" and "PrepareACL compile raw = Inl err"
      and "loadACL_loop compile entries (aclMap(role \<mapsto> acl)) = (Map.empty, Some err)"
      by blast
    moreover have "loadACL_loop compile (e # entries) aclMap
        = loadACL_loop compile entries (aclMap(role \<mapsto> acl))"
      using e Inr by simp
    ultimately have "(r, raw) \<in> set (e # entries) \<and> PrepareACL compile raw = Inl err
        \<and> loadACL_loop compile (e # entries) aclMap = (Map.empty, Some err)"
      by simp
    then show ?thesis by blast
  qed
qed

lemma loadACL_loop_succeeds:
  "distinct (map fst entries) \<Longrightarrow>
   list_all (\<lambda>(role, rawACL). \<not> isl (PrepareACL compile rawACL)) entries \<Longrightarrow>
   loadACL_loop compile entries aclMap =
     (\<lambda>role. case map_of entries role of
                None \<Rightarrow> aclMap role
              | Some rawACL \<Rightarrow>
                  (case PrepareACL compile rawACL of Inr acl \<Rightarrow> Some acl | Inl err \<Rightarrow> None),
      None)"
proof (induction entries arbitrary: aclMap)
  case Nil
  then show ?case by simp
next
  case (Cons e entries)
  obtain role rawACL where e: "e = (role, rawACL)" by (cases e)
  with Cons.prems obtain acl where acl: "PrepareACL compile rawACL = Inr acl"
    by (cases "PrepareACL compile rawACL") auto
  from Cons.prems e have d: "distinct (map fst entries)" and n: "map_of entries role = None"
    and a: "list_all (\<lambda>(role, rawACL). \<not> isl (PrepareACL compile rawACL)) entries"
    by (auto simp: map_of_eq_None_iff)
  have "loadACL_loop compile (e # entries) aclMap = loadACL_loop compile entries (aclMap(role \<mapsto> acl))"
    using e acl by simp
  also have "\<dots> = (\<lambda>r. case map_of entries r of
                None \<Rightarrow> (aclMap(role \<mapsto> acl)) r
              | Some rawACL \<Rightarrow>
                  (case PrepareACL compile rawACL of Inr acl \<Rightarrow> Some acl | Inl err \<Rightarrow> None),
      None)"
    by (rule Cons.IH [OF d a])
  also have "(\<lambda>r. case map_of entries r of
                None \<Rightarrow> (aclMap(role \<mapsto> acl)) r
              | Some rawACL \<Rightarrow>
                  (case PrepareACL compile rawACL of Inr acl \<Rightarrow> Some acl | Inl err \<Rightarrow> None))
      = (\<lambda>r. case map_of (e # entries) r of
                None \<Rightarrow> aclMap r
              | Some rawACL \<Rightarrow>
                  (case PrepareACL compile rawACL of Inr acl \<Rightarrow> Some acl | Inl err \<Rightarrow> None))"
    using e acl n by (auto simp: fun_eq_iff split: option.splits)
  finally show ?case .
qed

text \<open>
  C6 (as amended). loadACL is fail-fast and atomic: if the raw pattern of some entry does
  not compile, it returns the empty registry together with the error PrepareACL gave for
  an entry of the mapping, as PrepareACL returned it (the cause and the raw pattern, no
  role name); if every entry compiles, it returns the registry that maps every role to
  its compiled ACL, and no error.
\<close>

theorem loadACL_fail_fast:
  "(list_ex (\<lambda>(role, rawACL). isl (PrepareACL compile rawACL)) entries \<longrightarrow>
      (\<exists>role rawACL err. (role, rawACL) \<in> set entries \<and> PrepareACL compile rawACL = Inl err
         \<and> loadACL compile (Inr entries) = (Map.empty, Some err)))
   \<and> (distinct (map fst entries)
        \<and> list_all (\<lambda>(role, rawACL). \<not> isl (PrepareACL compile rawACL)) entries \<longrightarrow>
      loadACL compile (Inr entries) =
        (\<lambda>role. case map_of entries role of
                   None \<Rightarrow> None
                 | Some rawACL \<Rightarrow>
                     (case PrepareACL compile rawACL of Inr acl \<Rightarrow> Some acl | Inl err \<Rightarrow> None),
         None))"
  using loadACL_loop_fails [of compile entries Map.empty]
    loadACL_loop_succeeds [of entries compile Map.empty]
  by (simp add: loadACL_def)

theorem loadACL_fail_fast_witness:
  "list_ex (\<lambda>(role, rawACL). isl (PrepareACL compileSample rawACL))
     [(str ''single-value'', str ''default''), (str ''test-role'', str ''['')]
   \<and> loadACL compileSample (Inr [(str ''single-value'', str ''default''), (str ''test-role'', str ''['')])
       = (Map.empty, Some (RegexpError (str ''error parsing regexp: missing closing ]: `[`'') (str ''['') (str ''['')))
   \<and> distinct (map fst [(str ''admin'', str ''.*''), (str ''single-value'', str ''default'')])
   \<and> list_all (\<lambda>(role, rawACL). \<not> isl (PrepareACL compileSample rawACL))
        [(str ''admin'', str ''.*''), (str ''single-value'', str ''default'')]
   \<and> fst (loadACL compileSample (Inr [(str ''admin'', str ''.*''), (str ''single-value'', str ''default'')]))
        (str ''single-value'') = testACLMap (str ''single-value'')
   \<and> snd (loadACL compileSample (Inr [(str ''admin'', str ''.*''), (str ''single-value'', str ''default'')]))
        = None"
proof -
  let ?bad = "[(str ''single-value'', str ''default''), (str ''test-role'', str ''['')]"
  let ?good = "[(str ''admin'', str ''.*''), (str ''single-value'', str ''default'')]"
  have h1: "list_ex (\<lambda>(role, rawACL). isl (PrepareACL compileSample rawACL)) ?bad"
    by (simp add: eval_defs)
  have r1: "loadACL compileSample (Inr ?bad)
      = (Map.empty, Some (RegexpError (str ''error parsing regexp: missing closing ]: `[`'') (str ''['') (str ''['')))"
    by (simp add: loadACL_def eval_defs)
  have h2: "distinct (map fst ?good)"
    by (simp add: str_def)
  have h3: "list_all (\<lambda>(role, rawACL). \<not> isl (PrepareACL compileSample rawACL)) ?good"
    by (simp add: eval_defs)
  from loadACL_fail_fast [where compile = compileSample and entries = ?good] h2 h3
  have r2: "loadACL compileSample (Inr ?good) =
        (\<lambda>role. case map_of ?good role of
                   None \<Rightarrow> None
                 | Some rawACL \<Rightarrow>
                     (case PrepareACL compileSample rawACL of Inr acl \<Rightarrow> Some acl | Inl err \<Rightarrow> None),
         None)"
    by blast
  have r3: "fst (loadACL compileSample (Inr ?good)) (str ''single-value'')
      = testACLMap (str ''single-value'')"
    unfolding r2 by (simp add: eval_defs testACLMap_def)
  have r4: "snd (loadACL compileSample (Inr ?good)) = None"
    unfolding r2 by simp
  from h1 r1 h2 h3 r3 r4 show ?thesis by blast
qed

text \<open>
  C6 as stated fails in that the error does not identify the role: two mappings that
  differ only in the name of the offending role give the same error.
\<close>

theorem loadACL_error_counterexample:
  "loadACL compileSample (Inr [(str ''test-role'', str ''a b'')])
     = (Map.empty, Some (SpacesWithinElements (str ''a b'')))
   \<and> loadACL compileSample (Inr [(str ''other-role'', str ''a b'')])
     = (Map.empty, Some (SpacesWithinElements (str ''a b'')))"
  by (simp add: loadACL_def eval_defs)

end
